theory Spec2Isabelle
  imports Complex_Main "HOL-Library.Log_Nat"
begin

section \<open>Python values used by log\_analyzer.py\<close>

text \<open>
  Exceptions of the Python source are values of \<open>error\<close>; a function that can raise
  returns \<open>error + 'a\<close> with \<open>Inl\<close> for the exception. A \<open>ValueError\<close> carries its
  message, so that the one raised by \<open>count_url\<close> is told apart from the one raised by
  \<open>float\<close>.
\<close>

datatype error =
    SystemExit int
  | AttributeError
  | UnboundLocalError
  | ValueError string
  | ZeroDivisionError
  | IndexError
  | StatisticsError

text \<open>
  Text is modelled as \<open>string\<close>: file names and decoded lines whose code points
  are below 256. On this range \<open>\d\<close> is the ten ASCII digits and \<open>str.split()\<close> separates
  at the code points 9 to 13, 28 to 32, 133 and 160.
\<close>

definition is_digit :: "char \<Rightarrow> bool" where
  "is_digit c = (48 \<le> (of_char c :: nat) \<and> (of_char c :: nat) \<le> 57)"

definition digit_val :: "char \<Rightarrow> nat" where
  "digit_val c = of_char c - 48"

definition newline :: char where
  "newline = CHR 0x0A"

definition is_space :: "char \<Rightarrow> bool" where
  "is_space c = (let n = (of_char c :: nat) in
     (9 \<le> n \<and> n \<le> 13) \<or> (28 \<le> n \<and> n \<le> 32) \<or> n = 133 \<or> n = 160)"

text \<open>Decimal value of a string of digits, most significant first.\<close>

definition nat_of_digits :: "string \<Rightarrow> nat" where
  "nat_of_digits s = foldl (\<lambda>a c. 10 * a + digit_val c) 0 s"

section \<open>Regular expressions of the \<open>re\<close> module\<close>

text \<open>
  The fragment of Python's regular expressions that the two patterns use. Matching is
  by backtracking: \<open>rmatch r (g, s)\<close> lists, in the order in which the backtracking
  matcher tries them, the ways \<open>r\<close> can consume a prefix of \<open>s\<close>, each with the groups
  captured and the text that remains. \<open>Dot\<close> is any character but a newline, \<open>Plus\<close>
  is the greedy \<open>+\<close>, \<open>Eol\<close> is \<open>$\<close>, which holds at the end of the text and before a
  final newline.
\<close>

datatype regex =
    Eps
  | Chr char
  | Dot
  | Dig
  | Eol
  | Cat regex regex
  | Alt regex regex
  | Plus regex
  | Grp nat regex

type_synonym groups = "nat \<rightharpoonup> string"
type_synonym mstate = "groups \<times> string"

text \<open>
  Greedy repetition: after one match of the body, first every way of repeating
  again, then stopping. Each repetition of the bodies used here consumes a character,
  so there are at most as many repetitions as characters; the first argument counts
  them down from the length of the text.
\<close>

fun rplus :: "nat \<Rightarrow> (mstate \<Rightarrow> mstate list) \<Rightarrow> mstate \<Rightarrow> mstate list" where
  "rplus 0 f st = []"
| "rplus (Suc n) f st = concat (map (\<lambda>st'. rplus n f st' @ [st']) (f st))"

fun rmatch :: "regex \<Rightarrow> mstate \<Rightarrow> mstate list" where
  "rmatch Eps st = [st]"
| "rmatch (Chr c) (g, s) = (case s of [] \<Rightarrow> [] | x # xs \<Rightarrow> if x = c then [(g, xs)] else [])"
| "rmatch Dot (g, s) = (case s of [] \<Rightarrow> [] | x # xs \<Rightarrow> if x \<noteq> newline then [(g, xs)] else [])"
| "rmatch Dig (g, s) = (case s of [] \<Rightarrow> [] | x # xs \<Rightarrow> if is_digit x then [(g, xs)] else [])"
| "rmatch Eol (g, s) = (if s = [] \<or> s = [newline] then [(g, s)] else [])"
| "rmatch (Cat a b) st = concat (map (rmatch b) (rmatch a st))"
| "rmatch (Alt a b) st = rmatch a st @ rmatch b st"
| "rmatch (Plus a) (g, s) = rplus (length s) (rmatch a) (g, s)"
| "rmatch (Grp n a) (g, s) =
     map (\<lambda>(g', s'). (g'(n \<mapsto> take (length s - length s') s), s')) (rmatch a (g, s))"

text \<open>A sequence of expressions, a literal text, and \<open>r{n}\<close>.\<close>

fun cats :: "regex list \<Rightarrow> regex" where
  "cats [] = Eps"
| "cats (r # rs) = Cat r (cats rs)"

fun lit :: "string \<Rightarrow> regex" where
  "lit [] = Eps"
| "lit (c # cs) = Cat (Chr c) (lit cs)"

fun rep :: "nat \<Rightarrow> regex \<Rightarrow> regex" where
  "rep 0 r = Eps"
| "rep (Suc n) r = Cat r (rep n r)"

text \<open>
  \<open>pattern.search(text)\<close> for a pattern that starts with \<open>^\<close> (both patterns do, and
  neither is compiled with a flag): only a match from the first character counts. The
  result is the groups of the first match found, \<open>None\<close> when there is none.
\<close>

definition re_search :: "regex \<Rightarrow> string \<Rightarrow> groups option" where
  "re_search r s = (case rmatch r (Map.empty, s) of [] \<Rightarrow> None | (g, _) # _ \<Rightarrow> Some g)"

section \<open>Locating the log: \<open>find_most_recent_log\<close>\<close>

text \<open>\<open>LOG_FILENAME_PATTERN = re.compile(r'^nginx-access-ui.log-(\d{8}).(gz|log)$')\<close>\<close>

definition LOG_FILENAME_PATTERN :: regex where
  "LOG_FILENAME_PATTERN =
     cats [lit ''nginx-access-ui'', Dot, lit ''log-'', Grp 1 (rep 8 Dig), Dot,
           Grp 2 (Alt (lit ''gz'') (lit ''log'')), Eol]"

text \<open>
  A date is year, month, day; \<open>strptime\<close> gives a \<open>datetime\<close> at midnight, so that
  comparing two of them compares the dates.
\<close>

type_synonym date = "nat \<times> nat \<times> nat"

fun date_gt :: "date \<Rightarrow> date \<Rightarrow> bool" where
  "date_gt (y1, m1, d1) (y2, m2, d2) =
     (y1 > y2 \<or> (y1 = y2 \<and> (m1 > m2 \<or> (m1 = m2 \<and> d1 > d2))))"

definition is_leap :: "nat \<Rightarrow> bool" where
  "is_leap y = (y mod 4 = 0 \<and> (y mod 100 \<noteq> 0 \<or> y mod 400 = 0))"

definition days_in_month :: "nat \<Rightarrow> nat \<Rightarrow> nat" where
  "days_in_month y m =
     (if m = 2 then (if is_leap y then 29 else 28)
      else if m = 4 \<or> m = 6 \<or> m = 9 \<or> m = 11 then 30 else 31)"

text \<open>
  \<open>dt.datetime.strptime(date, "%Y%m%d")\<close> on the eight digits of group 1: four digits
  of year, two of month, two of day (with eight digits, a one-digit month or day
  leaves text unconverted, which is a \<open>ValueError\<close> too). \<open>None\<close> is the \<open>ValueError\<close>.
\<close>

definition strptime :: "string \<Rightarrow> date option" where
  "strptime s =
     (if length s = 8 \<and> list_all is_digit s then
        (let y = nat_of_digits (take 4 s);
             m = nat_of_digits (take 2 (drop 4 s));
             d = nat_of_digits (drop 6 s)
         in if 1 \<le> y \<and> 1 \<le> m \<and> m \<le> 12 \<and> 1 \<le> d \<and> d \<le> days_in_month y m
            then Some (y, m, d) else None)
      else None)"

record LogFile =
  path :: string
  date :: date
  extension :: string

text \<open>
  \<open>os.path.join(directory, file)\<close> for a directory entry \<open>file\<close>. The source wraps it in
  \<open>os.path.abspath\<close>, which resolves a relative path against the working directory of
  the process and leaves a normalised absolute one as it is; that step is not modelled.
\<close>

definition path_join :: "string \<Rightarrow> string \<Rightarrow> string" where
  "path_join directory file =
     (if directory = [] \<or> last directory = CHR ''/'' then directory @ file
      else directory @ ''/'' @ file)"

text \<open>
  The local variables of the scan. \<open>most_recent_date\<close>, \<open>most_recent_file\<close> and
  \<open>most_recent_ext\<close> start as Python's \<open>None\<close>; \<open>parsed_date\<close> has no binding until
  a \<open>strptime\<close> succeeds, and \<open>None\<close> stands for that.
\<close>

record scan_state =
  most_recent_date :: "date option"
  most_recent_file :: "string option"
  most_recent_ext :: "string option"
  parsed_date :: "date option"

definition scan_init :: scan_state where
  "scan_init = \<lparr>most_recent_date = None, most_recent_file = None,
                most_recent_ext = None, parsed_date = None\<rparr>"

text \<open>
  One pass through the body of the \<open>for\<close> loop (lines 76 to 92). \<open>search.groups()\<close>
  on a failed search is an \<open>AttributeError\<close>. The handler of the \<open>ValueError\<close> only
  prints, so \<open>parsed_date\<close> keeps the binding it had; reading it without a binding is an
  \<open>UnboundLocalError\<close>. The \<open>return\<close> is a statement of the body: the pass ends the
  function with the tuple.
\<close>

definition scan_body :: "string \<Rightarrow> string \<Rightarrow> scan_state \<Rightarrow> error + LogFile" where
  "scan_body directory file st =
     (case re_search LOG_FILENAME_PATTERN file of
        None \<Rightarrow> Inl AttributeError
      | Some g \<Rightarrow>
          (let date_s = the (g 1); ext = the (g 2);
               pd = (case strptime date_s of Some d \<Rightarrow> Some d | None \<Rightarrow> parsed_date st)
           in case pd of
                None \<Rightarrow> Inl UnboundLocalError
              | Some d \<Rightarrow>
                  (let st' = (if most_recent_date st = None \<or> date_gt d (the (most_recent_date st))
                              then st\<lparr>most_recent_date := Some d, most_recent_file := Some file,
                                      most_recent_ext := Some ext, parsed_date := pd\<rparr>
                              else st\<lparr>parsed_date := pd\<rparr>)
                   in Inr \<lparr>path = path_join directory (the (most_recent_file st')),
                           date = the (most_recent_date st'),
                           extension = the (most_recent_ext st')\<rparr>)))"

text \<open>
  The loop over \<open>os.listdir(directory)\<close>. With no entry the function falls off its end
  and returns \<open>None\<close>; with an entry the first pass returns or raises, and the other
  entries are never read.
\<close>

fun scan :: "string \<Rightarrow> string list \<Rightarrow> scan_state \<Rightarrow> error + LogFile option" where
  "scan directory [] st = Inr None"
| "scan directory (file # files) st =
     (case scan_body directory file st of Inl e \<Rightarrow> Inl e | Inr lf \<Rightarrow> Inr (Some lf))"

text \<open>
  The listing is \<open>None\<close> when \<open>os.path.isdir(directory)\<close> is false, and then
  \<open>sys.exit(-1)\<close> raises \<open>SystemExit\<close>; otherwise it is \<open>os.listdir(directory)\<close> in the
  order the system gives it.
\<close>

definition find_most_recent_log :: "string \<Rightarrow> string list option \<Rightarrow> error + LogFile option" where
  "find_most_recent_log directory listing =
     (case listing of
        None \<Rightarrow> Inl (SystemExit (-1))
      | Some files \<Rightarrow> scan directory files scan_init)"

section \<open>Parsing the lines: \<open>parse_log\<close>\<close>

text \<open>\<open>LOG_FORMAT_PATTERN = re.compile(r"^.+\[.+\] \"(.+)\" \d{3}.+ (\d+.\d+)")\<close>\<close>

definition dquote :: char where
  "dquote = CHR 0x22"

definition LOG_FORMAT_PATTERN :: regex where
  "LOG_FORMAT_PATTERN =
     cats [Plus Dot, Chr (CHR 0x5B), Plus Dot, Chr (CHR 0x5D), Chr (CHR 0x20), Chr dquote,
           Grp 1 (Plus Dot), Chr dquote, Chr (CHR 0x20), rep 3 Dig, Plus Dot, Chr (CHR 0x20),
           Grp 2 (cats [Plus Dig, Dot, Plus Dig])]"

text \<open>\<open>str.split()\<close> with no argument: the maximal runs of characters that are not white space.\<close>

fun split_acc :: "string \<Rightarrow> string \<Rightarrow> string list" where
  "split_acc cur [] = (if cur = [] then [] else [cur])"
| "split_acc cur (c # cs) =
     (if is_space c then (if cur = [] then split_acc [] cs else cur # split_acc [] cs)
      else split_acc (cur @ [c]) cs)"

definition py_split :: "string \<Rightarrow> string list" where
  "py_split s = split_acc [] s"

text \<open>
  \<open>float(text)\<close> on the text of group 2, which starts with a digit and ends with one,
  so that of the grammar of \<open>float\<close> only the unsigned number is needed:
  digits (single underscores allowed between them), an optional point and fraction, an
  optional exponent. A text of another form is a \<open>ValueError\<close>. The value is the real
  number written; \<open>py_float_f64\<close> below rounds it to the double that \<open>float\<close> returns.
\<close>

fun digits_more :: "string \<Rightarrow> string \<times> string" where
  "digits_more [] = ([], [])"
| "digits_more (c # cs) =
     (if is_digit c then (case digits_more cs of (ds, r) \<Rightarrow> (c # ds, r))
      else if c = CHR ''_'' then
        (case cs of
           [] \<Rightarrow> ([], c # cs)
         | d # cs' \<Rightarrow> if is_digit d then (case digits_more cs' of (ds, r) \<Rightarrow> (d # ds, r))
                      else ([], c # cs))
      else ([], c # cs))"

definition digitpart :: "string \<Rightarrow> (string \<times> string) option" where
  "digitpart s =
     (case s of
        [] \<Rightarrow> None
      | c # cs \<Rightarrow> if is_digit c then (case digits_more cs of (ds, r) \<Rightarrow> Some (c # ds, r))
                  else None)"

text \<open>The exponent, if there is one: its value as a power of ten, and the rest of the text.\<close>

definition exponent :: "string \<Rightarrow> (real \<times> string) option" where
  "exponent s =
     (case s of
        [] \<Rightarrow> Some (1, [])
      | c # cs \<Rightarrow>
          if c = CHR ''e'' \<or> c = CHR ''E'' then
            (let (neg, cs') = (case cs of
                                 [] \<Rightarrow> (False, cs)
                               | x # xs \<Rightarrow> if x = CHR ''-'' then (True, xs)
                                           else if x = CHR ''+'' then (False, xs)
                                           else (False, cs))
             in case digitpart cs' of
                  None \<Rightarrow> None
                | Some (ds, r) \<Rightarrow>
                    Some (if neg then 1 / 10 ^ nat_of_digits ds else 10 ^ nat_of_digits ds, r))
          else Some (1, s))"

definition float_error :: error where
  "float_error = ValueError ''could not convert string to float''"

definition py_float :: "string \<Rightarrow> error + real" where
  "py_float s =
     (let (ip, r1) = (case digitpart s of None \<Rightarrow> ([], s) | Some (ds, r) \<Rightarrow> (ds, r));
          (fp, r2) = (case r1 of
                        [] \<Rightarrow> ([], r1)
                      | c # cs \<Rightarrow>
                          if c = CHR ''.'' then
                            (case digitpart cs of None \<Rightarrow> ([], cs) | Some (ds, r) \<Rightarrow> (ds, r))
                          else ([], r1))
      in if ip = [] \<and> fp = [] then Inl float_error
         else (case exponent r2 of
                 None \<Rightarrow> Inl float_error
               | Some (e, r3) \<Rightarrow>
                   if r3 \<noteq> [] then Inl float_error
                   else Inr ((real (nat_of_digits ip)
                              + real (nat_of_digits fp) / 10 ^ length fp) * e)))"

text \<open>
  \<open>LogLine\<close>, the map of times and \<open>LogStats\<close> take the type of the times as a
  parameter: \<open>real\<close> where the arithmetic is exact, \<open>double\<close> (below) where it is that of
  Python's floats.
\<close>

datatype 'n LogLine = LogLine (url: string) (time: 'n)

text \<open>
  The body of the loop of the generator for one decoded line (lines 105 to 114). The
  generator's local \<open>url\<close> is passed along: \<open>None\<close> while it has no binding. A failed
  search yields \<open>None\<close>. When the request does not split into three words the
  unpacking raises before it binds anything, the handler only prints, and the
  statements after it run with \<open>url\<close> as it was: \<open>float\<close> first, which may raise, then
  the read of \<open>url\<close>, an \<open>UnboundLocalError\<close> when it has no binding.
\<close>

definition parse_line ::
  "string option \<Rightarrow> string \<Rightarrow> error + (real LogLine option \<times> string option)" where
  "parse_line url_var line =
     (case re_search LOG_FORMAT_PATTERN line of
        None \<Rightarrow> Inr (None, url_var)
      | Some g \<Rightarrow>
          (let words = py_split (the (g 1));
               url_var' = (if length words = 3 then Some (words ! 1) else url_var)
           in case py_float (the (g 2)) of
                Inl e \<Rightarrow> Inl e
              | Inr request_time \<Rightarrow>
                  (case url_var' of
                     None \<Rightarrow> Inl UnboundLocalError
                   | Some u \<Rightarrow> Inr (Some (LogLine u request_time), url_var'))))"

text \<open>
  The generator run to its end over the decoded lines of the file: what it yields, or
  the exception that ends it. The lines are those the file object gives, each with its
  line end; opening, decompressing and decoding the file are not modelled.
\<close>

fun parse_lines :: "string option \<Rightarrow> string list \<Rightarrow> error + real LogLine option list" where
  "parse_lines url_var [] = Inr []"
| "parse_lines url_var (line # lines) =
     (case parse_line url_var line of
        Inl e \<Rightarrow> Inl e
      | Inr (y, url_var') \<Rightarrow>
          (case parse_lines url_var' lines of Inl e \<Rightarrow> Inl e | Inr ys \<Rightarrow> Inr (y # ys)))"

definition parse_log :: "string list \<Rightarrow> error + real LogLine option list" where
  "parse_log lines = parse_lines None lines"

section \<open>Aggregating: \<open>count_url\<close>\<close>

text \<open>
  \<open>requests_by_url\<close> is a \<open>defaultdict(list)\<close>: an association list with one entry per
  key, in the order in which the keys were first used. \<open>append_time u t m\<close> is
  \<open>m[u].append(t)\<close>.
\<close>

type_synonym 'n url_times = "(string \<times> 'n list) list"

fun append_time :: "string \<Rightarrow> 'n \<Rightarrow> 'n url_times \<Rightarrow> 'n url_times" where
  "append_time u t [] = [(u, [t])]"
| "append_time u t ((k, ts) # m) =
     (if k = u then (k, ts @ [t]) # m else (k, ts) # append_time u t m)"

text \<open>
  The two counters are floats in the source and only ever incremented by one; they are
  natural numbers here. The times are added here as the numbers written;
  \<open>count_step_f64\<close> below adds them as floats.
\<close>

record 'n count_state =
  parsed_lines :: nat
  invalid_lines :: nat
  total_requests_time :: 'n
  requests_by_url :: "'n url_times"

definition count_init :: "real count_state" where
  "count_init = \<lparr>parsed_lines = 0, invalid_lines = 0, total_requests_time = 0,
                 requests_by_url = []\<rparr>"

fun count_step :: "real count_state \<Rightarrow> real LogLine option \<Rightarrow> real count_state" where
  "count_step st None = st\<lparr>invalid_lines := invalid_lines st + 1\<rparr>"
| "count_step st (Some line) =
     st\<lparr>parsed_lines := parsed_lines st + 1,
        total_requests_time := total_requests_time st + time line,
        requests_by_url := append_time (url line) (time line) (requests_by_url st)\<rparr>"

definition count_lines :: "real LogLine option list \<Rightarrow> real count_state" where
  "count_lines items = foldl count_step count_init items"

definition threshold_error :: error where
  "threshold_error = ValueError ''Error threshold was exceed.''"

definition default_error_threshold :: real where
  "default_error_threshold = 0.2"

text \<open>
  \<open>count_url\<close> on the decoded lines of the log. An exception of the generator passes
  through the loop. The division of line 141 raises \<open>ZeroDivisionError\<close> when both
  counters are zero.
\<close>

definition count_url :: "string list \<Rightarrow> real \<Rightarrow> error + (real url_times \<times> real)" where
  "count_url log_lines error_threshold =
     (case parse_log log_lines of
        Inl e \<Rightarrow> Inl e
      | Inr items \<Rightarrow>
          (let st = count_lines items in
           if invalid_lines st + parsed_lines st = 0 then Inl ZeroDivisionError
           else if real (invalid_lines st) / real (invalid_lines st + parsed_lines st)
                     > error_threshold
           then Inl threshold_error
           else Inr (requests_by_url st, total_requests_time st)))"

section \<open>Statistics: \<open>count_url_stats\<close>\<close>

text \<open>
  \<open>round(x, ndigits)\<close> on the real number: to the nearest multiple of
  \<open>10 ^ -ndigits\<close>, a tie to the even one. \<open>round_f64\<close> below applies it to the value of
  a float and reads the result back as a float.
\<close>

definition round_half_even :: "real \<Rightarrow> int" where
  "round_half_even x =
     (let f = \<lfloor>x\<rfloor>; r = x - of_int f
      in if r < 1 / 2 then f else if r > 1 / 2 then f + 1 else if even f then f else f + 1)"

definition py_round :: "real \<Rightarrow> nat \<Rightarrow> real" where
  "py_round x ndigits = of_int (round_half_even (x * 10 ^ ndigits)) / 10 ^ ndigits"

text \<open>\<open>sorted(data)[-1]\<close>: an \<open>IndexError\<close> on the empty list.\<close>

definition sorted_last :: "real list \<Rightarrow> error + real" where
  "sorted_last data = (if sort data = [] then Inl IndexError else Inr (last (sort data)))"

text \<open>
  \<open>statistics.median(data)\<close>: the middle value of the sorted data, the mean of the two
  middle values when their number is even, a \<open>StatisticsError\<close> when there is none.
\<close>

definition median :: "real list \<Rightarrow> error + real" where
  "median data =
     (let d = sort data; n = length d
      in if n = 0 then Inl StatisticsError
         else if n mod 2 = 1 then Inr (d ! (n div 2))
         else Inr ((d ! (n div 2 - 1) + d ! (n div 2)) / 2))"

record 'n LogStats =
  url :: string
  count :: nat
  count_perc :: 'n
  time_sum :: 'n
  time_perc :: 'n
  time_avg :: 'n
  time_max :: 'n
  time_med :: 'n

text \<open>
  The body of the loop for one key (lines 156 to 173); \<open>n\<close> is \<open>len(requests_by_url)\<close>,
  which is at least one inside the loop. The divisions by \<open>total_requests_time\<close> and
  by \<open>count\<close> raise \<open>ZeroDivisionError\<close> on zero, in the order of the source.
\<close>

definition url_stat :: "nat \<Rightarrow> real \<Rightarrow> string \<times> real list \<Rightarrow> error + real LogStats" where
  "url_stat n total_time entry =
     (let u = fst entry; ts = snd entry;
          c = length ts;
          c_perc = py_round (100 * real c / real n) 5;
          t_sum = py_round (sum_list ts) 5
      in if total_time = 0 then Inl ZeroDivisionError
         else
           (let t_perc = py_round (100 * t_sum / total_time) 5
            in if c = 0 then Inl ZeroDivisionError
               else
                 (let t_avg = py_round (t_sum / real c) 5
                  in case sorted_last ts of
                       Inl e \<Rightarrow> Inl e
                     | Inr t_max \<Rightarrow>
                         (case median ts of
                            Inl e \<Rightarrow> Inl e
                          | Inr med \<Rightarrow>
                              Inr \<lparr>url = u, count = c, count_perc = c_perc, time_sum = t_sum,
                                   time_perc = t_perc, time_avg = t_avg, time_max = t_max,
                                   time_med = py_round med 5\<rparr>))))"

fun stats_loop :: "nat \<Rightarrow> real \<Rightarrow> real url_times \<Rightarrow> error + real LogStats list" where
  "stats_loop n total_time [] = Inr []"
| "stats_loop n total_time (entry # entries) =
     (case url_stat n total_time entry of
        Inl e \<Rightarrow> Inl e
      | Inr s \<Rightarrow>
          (case stats_loop n total_time entries of Inl e \<Rightarrow> Inl e | Inr ss \<Rightarrow> Inr (s # ss)))"

text \<open>
  \<open>sorted(url_stats, key=attrgetter("time_sum"), reverse=True)\<close>: a stable sort in
  descending order, which is the stable ascending sort of the reversed list, reversed.
\<close>

definition sorted_reverse :: "real LogStats list \<Rightarrow> real LogStats list" where
  "sorted_reverse url_stats = rev (sort_key time_sum (rev url_stats))"

definition count_url_stats :: "real url_times \<Rightarrow> real \<Rightarrow> error + real LogStats list" where
  "count_url_stats requests total_time =
     (case stats_loop (length requests) total_time requests of
        Inl e \<Rightarrow> Inl e
      | Inr url_stats \<Rightarrow> Inr (sorted_reverse url_stats))"

section \<open>Writing the report: \<open>write_report\<close>\<close>

text \<open>
  The files are a map from paths to contents. \<open>write_report\<close> is the list of the
  states of the files after each of its statements, the last one being the state it
  leaves:
  \<^enum> \<open>tempfile.NamedTemporaryFile()\<close> creates an empty file at \<open>tmp_name\<close>;
  \<^enum> \<open>open(tmp.name, 'wb')\<close> truncates it;
  \<^enum> \<open>f.write(...)\<close> writes through a buffer: the first \<open>flushed\<close> characters of the
    text have reached the file, the others wait in the buffer (how many is up to the
    \<open>io\<close> module, so it is a parameter);
  \<^enum> \<open>open(report_path, 'wb')\<close> creates or truncates the report;
  \<^enum> \<open>shutil.copyfileobj(tmp, f)\<close> and the end of the inner \<open>with\<close> copy what the
    temporary file holds into the report;
  \<^enum> the end of the outer \<open>with\<close> flushes the buffer into the temporary file.
\<close>

type_synonym files = "string \<rightharpoonup> string"

definition write_report :: "string \<Rightarrow> nat \<Rightarrow> string \<Rightarrow> string \<Rightarrow> files \<Rightarrow> files list" where
  "write_report tmp_name flushed rendered_template report_path fs =
     (let fs1 = fs(tmp_name \<mapsto> []);
          fs2 = fs1(tmp_name \<mapsto> []);
          fs3 = fs2(tmp_name \<mapsto> take flushed rendered_template);
          fs4 = fs3(report_path \<mapsto> []);
          fs5 = fs4(report_path \<mapsto> the (fs4 tmp_name));
          fs6 = fs5(tmp_name \<mapsto> rendered_template)
      in [fs1, fs2, fs3, fs4, fs5, fs6])"

section \<open>The arithmetic of Python's floats\<close>

text \<open>
  The functions above compute with the numbers as written, in exact arithmetic. Python's
  \<open>float\<close> is the IEEE 754 double, and every operation rounds; this section has the
  double and the operations the source uses, and the next one the aggregation and the
  statistics computed with them.

  \<open>Num r\<close> is the finite double whose value is \<open>r\<close>. The two zeros are one value (they are
  equal for \<open>==\<close>, and the source never divides by one without raising).
\<close>

datatype double = Num real | PosInf | NegInf | NaN

text \<open>
  The order of the doubles that are numbers, which is the one \<open><\<close> and \<open>sorted\<close> use.
  \<open>NaN\<close>, which compares false with everything, is put above the rest only to make
  the order total: sorting a list that holds a \<open>NaN\<close> is not modelled, and the
  theorems that depend on a sort of durations assume there is none.
\<close>

fun double_key :: "double \<Rightarrow> int \<times> real" where
  "double_key NegInf = (0, 0)"
| "double_key (Num r) = (1, r)"
| "double_key PosInf = (2, 0)"
| "double_key NaN = (3, 0)"

instantiation double :: linorder
begin

definition less_eq_double :: "double \<Rightarrow> double \<Rightarrow> bool" where
  "less_eq_double x y =
     (fst (double_key x) < fst (double_key y)
      \<or> (fst (double_key x) = fst (double_key y) \<and> snd (double_key x) \<le> snd (double_key y)))"

definition less_double :: "double \<Rightarrow> double \<Rightarrow> bool" where
  "less_double x y = (x \<le> y \<and> \<not> y \<le> (x::double))"

instance
proof
  fix x y z :: double
  show "(x < y) = (x \<le> y \<and> \<not> y \<le> x)"
    by (simp add: less_double_def)
  show "x \<le> x"
    by (simp add: less_eq_double_def)
  show "x \<le> y \<Longrightarrow> y \<le> z \<Longrightarrow> x \<le> z"
    by (cases x; cases y; cases z) (simp_all add: less_eq_double_def)
  show "x \<le> y \<Longrightarrow> y \<le> x \<Longrightarrow> x = y"
    by (cases x; cases y) (simp_all add: less_eq_double_def)
  show "x \<le> y \<or> y \<le> x"
    by (cases x; cases y) (auto simp: less_eq_double_def)
qed

end

text \<open>
  Rounding a real number to the nearest double, a tie to the even significand.
  \<open>ilog2 a\<close> is the exponent of the power of two at or below \<open>a > 0\<close>; a double has 53
  significant bits, so the doubles around \<open>a\<close> are the multiples of
  \<open>2 ^ (ilog2 a - 52)\<close>, or of \<open>2 ^ -1074\<close> in the subnormal range. A result of
  \<open>2 ^ 1024\<close> or more is an infinity.
\<close>

definition pow2 :: "int \<Rightarrow> real" where
  "pow2 e = (if 0 \<le> e then 2 ^ nat e else 1 / 2 ^ nat (- e))"

definition ilog2 :: "real \<Rightarrow> int" where
  "ilog2 a = (if 1 \<le> a then bitlen \<lfloor>a\<rfloor> - 1 else - bitlen (\<lceil>1 / a\<rceil> - 1))"

definition round_at :: "int \<Rightarrow> real \<Rightarrow> real" where
  "round_at e a = of_int (round_half_even (a / pow2 e)) * pow2 e"

definition pack_f64 :: "bool \<Rightarrow> real \<Rightarrow> double" where
  "pack_f64 negative v =
     (if 2 ^ 1024 \<le> v then (if negative then NegInf else PosInf)
      else Num (if negative then - v else v))"

definition to_double :: "real \<Rightarrow> double" where
  "to_double x =
     (if x = 0 then Num 0
      else pack_f64 (x < 0) (round_at (max (ilog2 \<bar>x\<bar> - 52) (- 1074)) \<bar>x\<bar>))"

text \<open>\<open>x + y\<close>, \<open>x * y\<close> and \<open>x / y\<close> on floats; the division raises on a zero divisor.\<close>

fun add_f64 :: "double \<Rightarrow> double \<Rightarrow> double" where
  "add_f64 (Num a) (Num b) = to_double (a + b)"
| "add_f64 NaN y = NaN"
| "add_f64 x NaN = NaN"
| "add_f64 PosInf NegInf = NaN"
| "add_f64 NegInf PosInf = NaN"
| "add_f64 PosInf y = PosInf"
| "add_f64 NegInf y = NegInf"
| "add_f64 x PosInf = PosInf"
| "add_f64 x NegInf = NegInf"

fun mul_f64 :: "double \<Rightarrow> double \<Rightarrow> double" where
  "mul_f64 (Num a) (Num b) = to_double (a * b)"
| "mul_f64 NaN y = NaN"
| "mul_f64 x NaN = NaN"
| "mul_f64 (Num a) y =
     (if a = 0 then NaN else if (0 < a) = (y = PosInf) then PosInf else NegInf)"
| "mul_f64 x (Num b) =
     (if b = 0 then NaN else if (0 < b) = (x = PosInf) then PosInf else NegInf)"
| "mul_f64 x y = (if x = y then PosInf else NegInf)"

fun div_f64 :: "double \<Rightarrow> double \<Rightarrow> error + double" where
  "div_f64 x (Num b) =
     (if b = 0 then Inl ZeroDivisionError
      else (case x of
              Num a \<Rightarrow> Inr (to_double (a / b))
            | NaN \<Rightarrow> Inr NaN
            | _ \<Rightarrow> Inr (if (0 < b) = (x = PosInf) then PosInf else NegInf)))"
| "div_f64 x NaN = Inr NaN"
| "div_f64 x y = (case x of Num a \<Rightarrow> Inr (Num 0) | _ \<Rightarrow> Inr NaN)"

text \<open>
  \<open>round(x, ndigits)\<close> on a float: the exact value of the double is rounded to the
  digits, a tie to the even digit, and the decimal number that results is read back as
  a double. An infinity or a \<open>NaN\<close> is returned as it is.
\<close>

definition round_f64 :: "double \<Rightarrow> nat \<Rightarrow> double" where
  "round_f64 x ndigits = (case x of Num v \<Rightarrow> to_double (py_round v ndigits) | _ \<Rightarrow> x)"

text \<open>
  \<open>float(text)\<close>: the double nearest to the number written, an infinity when the
  number is too large.
\<close>

definition py_float_f64 :: "string \<Rightarrow> error + double" where
  "py_float_f64 s = (case py_float s of Inl e \<Rightarrow> Inl e | Inr v \<Rightarrow> Inr (to_double v))"

text \<open>
  \<open>sum(data)\<close> on floats: added one by one from the left, starting from zero (the
  builtin of the Python versions that still have the \<open>imp\<close> module, which the
  source imports).
\<close>

definition sum_f64 :: "double list \<Rightarrow> double" where
  "sum_f64 data = foldl add_f64 (Num 0) data"

section \<open>Parsing, aggregating and statistics on floats\<close>

text \<open>
  \<open>parse_log\<close>, \<open>count_url\<close> and \<open>count_url_stats\<close> again, statement for statement as
  above, with the times as doubles.
\<close>

definition parse_line_f64 ::
  "string option \<Rightarrow> string \<Rightarrow> error + (double LogLine option \<times> string option)" where
  "parse_line_f64 url_var line =
     (case re_search LOG_FORMAT_PATTERN line of
        None \<Rightarrow> Inr (None, url_var)
      | Some g \<Rightarrow>
          (let words = py_split (the (g 1));
               url_var' = (if length words = 3 then Some (words ! 1) else url_var)
           in case py_float_f64 (the (g 2)) of
                Inl e \<Rightarrow> Inl e
              | Inr request_time \<Rightarrow>
                  (case url_var' of
                     None \<Rightarrow> Inl UnboundLocalError
                   | Some u \<Rightarrow> Inr (Some (LogLine u request_time), url_var'))))"

fun parse_lines_f64 :: "string option \<Rightarrow> string list \<Rightarrow> error + double LogLine option list" where
  "parse_lines_f64 url_var [] = Inr []"
| "parse_lines_f64 url_var (line # lines) =
     (case parse_line_f64 url_var line of
        Inl e \<Rightarrow> Inl e
      | Inr (y, url_var') \<Rightarrow>
          (case parse_lines_f64 url_var' lines of Inl e \<Rightarrow> Inl e | Inr ys \<Rightarrow> Inr (y # ys)))"

definition parse_log_f64 :: "string list \<Rightarrow> error + double LogLine option list" where
  "parse_log_f64 lines = parse_lines_f64 None lines"

definition count_init_f64 :: "double count_state" where
  "count_init_f64 = \<lparr>parsed_lines = 0, invalid_lines = 0, total_requests_time = Num 0,
                     requests_by_url = []\<rparr>"

fun count_step_f64 :: "double count_state \<Rightarrow> double LogLine option \<Rightarrow> double count_state" where
  "count_step_f64 st None = st\<lparr>invalid_lines := invalid_lines st + 1\<rparr>"
| "count_step_f64 st (Some line) =
     st\<lparr>parsed_lines := parsed_lines st + 1,
        total_requests_time := add_f64 (total_requests_time st) (time line),
        requests_by_url := append_time (LogLine.url line) (time line) (requests_by_url st)\<rparr>"

definition count_lines_f64 :: "double LogLine option list \<Rightarrow> double count_state" where
  "count_lines_f64 items = foldl count_step_f64 count_init_f64 items"

definition count_url_f64 :: "string list \<Rightarrow> real \<Rightarrow> error + (double url_times \<times> double)" where
  "count_url_f64 log_lines error_threshold =
     (case parse_log_f64 log_lines of
        Inl e \<Rightarrow> Inl e
      | Inr items \<Rightarrow>
          (let st = count_lines_f64 items in
           if invalid_lines st + parsed_lines st = 0 then Inl ZeroDivisionError
           else if real (invalid_lines st) / real (invalid_lines st + parsed_lines st)
                     > error_threshold
           then Inl threshold_error
           else Inr (requests_by_url st, total_requests_time st)))"

text \<open>The lines that the generator yielded as parsed, in their order.\<close>

definition parsed_items :: "'n LogLine option list \<Rightarrow> 'n LogLine list" where
  "parsed_items items = map the (filter (\<lambda>y. y \<noteq> None) items)"

definition sorted_last_f64 :: "double list \<Rightarrow> error + double" where
  "sorted_last_f64 data = (if sort data = [] then Inl IndexError else Inr (last (sort data)))"

definition median_f64 :: "double list \<Rightarrow> error + double" where
  "median_f64 data =
     (let d = sort data; n = length d
      in if n = 0 then Inl StatisticsError
         else if n mod 2 = 1 then Inr (d ! (n div 2))
         else div_f64 (add_f64 (d ! (n div 2 - 1)) (d ! (n div 2))) (Num 2))"

text \<open>
  The body of the loop of \<open>count_url_stats\<close> on floats. \<open>100 * count / len(...)\<close> divides two
  integers, which gives the double nearest to the quotient; \<open>100 * time_sum\<close> and the
  two divisions after it are operations on floats, \<open>count\<close> being converted first.
\<close>

definition url_stat_f64 :: "nat \<Rightarrow> double \<Rightarrow> string \<times> double list \<Rightarrow> error + double LogStats" where
  "url_stat_f64 n total_time entry =
     (let u = fst entry; ts = snd entry;
          c = length ts;
          c_perc = round_f64 (to_double (real (100 * c) / real n)) 5;
          t_sum = round_f64 (sum_f64 ts) 5
      in case div_f64 (mul_f64 (Num 100) t_sum) total_time of
           Inl e \<Rightarrow> Inl e
         | Inr p \<Rightarrow>
             (case div_f64 t_sum (to_double (real c)) of
                Inl e \<Rightarrow> Inl e
              | Inr a \<Rightarrow>
                  (case sorted_last_f64 ts of
                     Inl e \<Rightarrow> Inl e
                   | Inr t_max \<Rightarrow>
                       (case median_f64 ts of
                          Inl e \<Rightarrow> Inl e
                        | Inr med \<Rightarrow>
                            Inr \<lparr>url = u, count = c, count_perc = c_perc, time_sum = t_sum,
                                 time_perc = round_f64 p 5, time_avg = round_f64 a 5,
                                 time_max = t_max, time_med = round_f64 med 5\<rparr>))))"

fun stats_loop_f64 :: "nat \<Rightarrow> double \<Rightarrow> double url_times \<Rightarrow> error + double LogStats list" where
  "stats_loop_f64 n total_time [] = Inr []"
| "stats_loop_f64 n total_time (entry # entries) =
     (case url_stat_f64 n total_time entry of
        Inl e \<Rightarrow> Inl e
      | Inr s \<Rightarrow>
          (case stats_loop_f64 n total_time entries of
             Inl e \<Rightarrow> Inl e
           | Inr ss \<Rightarrow> Inr (s # ss)))"

definition sorted_reverse_f64 :: "double LogStats list \<Rightarrow> double LogStats list" where
  "sorted_reverse_f64 url_stats = rev (sort_key time_sum (rev url_stats))"

definition count_url_stats_f64 ::
  "double url_times \<Rightarrow> double \<Rightarrow> error + double LogStats list" where
  "count_url_stats_f64 requests total_time =
     (case stats_loop_f64 (length requests) total_time requests of
        Inl e \<Rightarrow> Inl e
      | Inr url_stats \<Rightarrow> Inr (sorted_reverse_f64 url_stats))"

section \<open>Sample inputs\<close>

text \<open>
  An access-log line with the given request and duration texts, and a log of five
  lines: one that is not an access-log line and four that are.
\<close>

definition access_line :: "string \<Rightarrow> string \<Rightarrow> string" where
  "access_line request duration =
     ''1.2.3.4 - [29/Jun/2017:03:50:22 +0300] '' @ [dquote] @ request @ [dquote]
       @ '' 200 927 '' @ duration @ [newline]"

definition sample_log :: "string list" where
  "sample_log = [''junk'', access_line ''GET /a HTTP/1.1'' ''0.390'',
                 access_line ''GET /b HTTP/1.1'' ''0.110'', access_line ''GET /a HTTP/1.1'' ''1.500'',
                 access_line ''GET /c HTTP/1.1'' ''2.000'']"

definition three_urls :: "real url_times" where
  "three_urls = [(''/a'', [1]), (''/b'', [1]), (''/c'', [1])]"

definition three_urls_f64 :: "double url_times" where
  "three_urls_f64 = [(''/a'', [Num 1]), (''/b'', [Num 1]), (''/c'', [Num 1])]"

definition drift_log :: "string list" where
  "drift_log = [access_line ''GET /a HTTP/1.1'' ''0.100'', access_line ''GET /b HTTP/1.1'' ''0.100'',
                access_line ''GET /a HTTP/1.1'' ''0.390'']"


definition eight_times :: "double url_times" where
  "eight_times =
     [(''/a'', [to_double 0.005, Num 0, Num 0, Num 0, Num 0, Num 0, Num 0, Num 0])]"

section \<open>The log locator\<close>

text \<open>
  Claim C1 (the locator returns the matching file with the latest date, and \<open>None\<close>
  when no file matches) fails on the code. The \<open>return\<close> of line 92 is inside the
  loop, so the first entry of the listing decides: of two matching files listed oldest
  first, the older one is returned. A first entry that does not match the pattern
  raises \<open>AttributeError\<close> at line 77 instead of being passed over. Only the empty
  directory gives \<open>None\<close>.
\<close>

theorem find_most_recent_log_first_entry:
  "find_most_recent_log ''/var/log''
     (Some [''nginx-access-ui.log-20170101.gz'', ''nginx-access-ui.log-20170630.gz''])
   = Inr (Some \<lparr>path = ''/var/log/nginx-access-ui.log-20170101.gz'', date = (2017, 1, 1),
                  extension = ''gz''\<rparr>)
   \<and> find_most_recent_log ''/var/log'' (Some [''notes.txt'']) = Inl AttributeError
   \<and> find_most_recent_log ''/var/log'' (Some []) = Inr None"
  by code_simp

text \<open>
  Claim C7 (a matching file whose date does not parse is skipped and never aborts the
  scan) fails on the code. The handler of line 81 prints and falls through to line 84
  with \<open>parsed_date\<close> unbound: the scan ends with \<open>UnboundLocalError\<close>.
\<close>

theorem find_most_recent_log_bad_date:
  "find_most_recent_log ''/var/log'' (Some [''nginx-access-ui.log-20171345.gz''])
   = Inl UnboundLocalError"
  by code_simp

section \<open>The line parser\<close>

text \<open>
  Claim C4 (the parser never raises, and a request that does not split into three
  words is unparsed) fails on the code. A first line whose request has two words
  raises \<open>UnboundLocalError\<close> at line 114; after a good line, such a line is yielded as
  a parsed line under the URL of the line before it; and a line whose duration field
  is matched by \<open>\d+.\d+\<close> but is no number raises the \<open>ValueError\<close> of \<open>float\<close>.
\<close>

theorem parse_log_short_request:
  "parse_log [access_line ''GET /a'' ''0.5''] = Inl UnboundLocalError
   \<and> parse_log [access_line ''GET /a HTTP/1.1'' ''0.390'', access_line ''GET /b'' ''0.5'']
       = Inr [Some (LogLine ''/a'' 0.39), Some (LogLine ''/a'' 0.5)]
   \<and> parse_log [access_line ''GET /a HTTP/1.1'' ''1x2''] = Inl float_error"
  by code_simp

section \<open>The aggregator\<close>






lemma sample_parse:
  "parse_log sample_log = Inr [None, Some (LogLine ''/a'' 0.39), Some (LogLine ''/b'' 0.11),
     Some (LogLine ''/a'' 1.5), Some (LogLine ''/c'' 2)]"
  by code_simp



text \<open>
  Claim C5 (on an empty stream the ratio counts as zero and the empty aggregates are
  returned) fails on the code: line 141 divides zero by zero, which raises
  \<open>ZeroDivisionError\<close>, whatever the threshold.
\<close>

theorem count_url_empty_log: "count_url [] error_threshold = Inl ZeroDivisionError"
  by (simp add: count_url_def parse_log_def count_lines_def count_init_def)

section \<open>The statistics\<close>



text \<open>
  Claim C6 (\<open>time_perc\<close> counts as zero when the total is zero) fails on the code. A
  log whose only line has the duration 0.000 passes \<open>count_url\<close> with the total zero,
  and line 159 then divides by it: \<open>count_url_stats\<close> raises \<open>ZeroDivisionError\<close>.
\<close>

theorem count_url_stats_zero_total:
  "count_url [access_line ''GET /a HTTP/1.1'' ''0.000''] default_error_threshold
     = Inr ([(''/a'', [0])], 0)
   \<and> count_url_stats [(''/a'', [0])] 0 = Inl ZeroDivisionError"
  by code_simp



section \<open>The aggregator on floats\<close>

text \<open>
  Evaluating the arithmetic of doubles at given numbers, and the generator on floats
  read off the generator on the numbers as written.
\<close>

lemmas f64_eval = to_double_def pack_f64_def round_at_def ilog2_def pow2_def round_half_even_def
  py_round_def round_f64_def compute_bitlen

lemma parse_line_f64_eq:
  "parse_line_f64 url_var line =
     (case parse_line url_var line of
        Inl e \<Rightarrow> Inl e
      | Inr (y, url_var') \<Rightarrow>
          Inr (map_option (\<lambda>l. LogLine (LogLine.url l) (to_double (time l))) y, url_var'))"
  by (simp add: parse_line_f64_def parse_line_def py_float_f64_def Let_def
      split: option.splits sum.splits)

lemma parse_lines_f64_eq:
  "parse_lines_f64 url_var lines =
     (case parse_lines url_var lines of
        Inl e \<Rightarrow> Inl e
      | Inr ys \<Rightarrow> Inr (map (map_option (\<lambda>l. LogLine (LogLine.url l) (to_double (time l)))) ys))"
  by (induction lines arbitrary: url_var)
    (simp_all add: parse_line_f64_eq split: sum.splits prod.splits)

lemma parse_log_f64_eq:
  "parse_log lines = Inr ys \<Longrightarrow>
   parse_log_f64 lines
     = Inr (map (map_option (\<lambda>l. LogLine (LogLine.url l) (to_double (time l)))) ys)"
  by (simp add: parse_log_f64_def parse_log_def parse_lines_f64_eq)

lemma drift_parse:
  "parse_log drift_log = Inr [Some (LogLine ''/a'' 0.1), Some (LogLine ''/b'' 0.1),
     Some (LogLine ''/a'' 0.39)]"
  by code_simp

lemma drift_parse_f64:
  "parse_log_f64 drift_log = Inr [Some (LogLine ''/a'' (to_double 0.1)),
     Some (LogLine ''/b'' (to_double 0.1)), Some (LogLine ''/a'' (to_double 0.39))]"
  by (simp add: parse_log_f64_eq [OF drift_parse])

text \<open>
  Claim C8 as it is written: \<open>total_requests_time\<close> equals the sum of all the durations
  recorded across the URLs. Line 138 adds each duration to the total as its line is
  read, and every addition rounds, so the total depends on the order: for three lines
  with 0.100 for \<open>/a\<close>, 0.100 for \<open>/b\<close> and 0.390 for \<open>/a\<close> the code's total is
  0.5900000000000001, and the durations of the map it returns, summed URL by URL or one
  after the other, give 0.59.
\<close>

theorem count_url_total_counterexample:
  "count_url_f64 drift_log default_error_threshold
     = Inr ([(''/a'', [to_double 0.1, to_double 0.39]), (''/b'', [to_double 0.1])],
            to_double 0.5900000000000001)
   \<and> sum_f64 [sum_f64 [to_double 0.1, to_double 0.39], sum_f64 [to_double 0.1]] = to_double 0.59
   \<and> sum_f64 [to_double 0.1, to_double 0.39, to_double 0.1] = to_double 0.59
   \<and> to_double 0.5900000000000001 \<noteq> to_double 0.59"
proof (intro conjI)
  show "count_url_f64 drift_log default_error_threshold
     = Inr ([(''/a'', [to_double 0.1, to_double 0.39]), (''/b'', [to_double 0.1])],
            to_double 0.5900000000000001)"
    by (simp add: count_url_f64_def drift_parse_f64 count_lines_f64_def count_init_f64_def
        default_error_threshold_def f64_eval)
  show "sum_f64 [sum_f64 [to_double 0.1, to_double 0.39], sum_f64 [to_double 0.1]] = to_double 0.59"
    by (simp add: sum_f64_def f64_eval)
  show "sum_f64 [to_double 0.1, to_double 0.39, to_double 0.1] = to_double 0.59"
    by (simp add: sum_f64_def f64_eval)
  show "to_double 0.5900000000000001 \<noteq> to_double 0.59"
    by (simp add: f64_eval)
qed

lemma append_time_keys:
  "map fst (append_time u t m) = (if u \<in> set (map fst m) then map fst m else map fst m @ [u])"
proof (induction m)
  case Nil
  then show ?case by simp
next
  case (Cons e m)
  then show ?case by (cases e) simp
qed

lemma append_time_distinct:
  "distinct (map fst m) \<Longrightarrow> distinct (map fst (append_time u t m))"
  by (simp add: append_time_keys)

lemma append_time_lengths:
  "(\<Sum>e\<leftarrow>append_time u t m. length (snd e)) = Suc (\<Sum>e\<leftarrow>m. length (snd e))"
  by (induction m) auto

lemma map_of_append_time:
  "map_of (append_time u t m) k =
     (if k = u then Some ((case map_of m u of None \<Rightarrow> [] | Some ts \<Rightarrow> ts) @ [t])
      else map_of m k)"
  by (induction m) auto

lemma parsed_items_simps:
  "parsed_items [] = []"
  "parsed_items (None # items) = parsed_items items"
  "parsed_items (Some l # items) = l # parsed_items items"
  by (simp_all add: parsed_items_def)

lemma foldl_count_step_f64:
  "requests_by_url (foldl count_step_f64 st items)
     = foldl (\<lambda>m l. append_time (LogLine.url l) (time l) m) (requests_by_url st)
         (parsed_items items)
   \<and> total_requests_time (foldl count_step_f64 st items)
       = foldl add_f64 (total_requests_time st) (map time (parsed_items items))
   \<and> parsed_lines (foldl count_step_f64 st items)
       = parsed_lines st + length (parsed_items items)
   \<and> parsed_lines (foldl count_step_f64 st items) + invalid_lines (foldl count_step_f64 st items)
       = parsed_lines st + invalid_lines st + length items"
proof (induction items arbitrary: st)
  case Nil
  then show ?case by (simp add: parsed_items_simps)
next
  case (Cons y items)
  show ?case
  proof (cases y)
    case None
    with Cons [of "count_step_f64 st None"] show ?thesis
      by (simp add: parsed_items_simps)
  next
    case (Some l)
    with Cons [of "count_step_f64 st (Some l)"] show ?thesis
      by (simp add: parsed_items_simps)
  qed
qed

lemma filter_url_absent:
  "u \<notin> LogLine.url ` set ls \<Longrightarrow> filter (\<lambda>l. LogLine.url l = u) ls = []"
  by (induction ls) auto

lemma grouped_by_url:
  fixes ls :: "'n LogLine list"
  defines "m \<equiv> foldl (\<lambda>m l. append_time (LogLine.url l) (time l) m) [] ls"
  shows "distinct (map fst m) \<and> (\<Sum>e\<leftarrow>m. length (snd e)) = length ls
       \<and> (\<forall>u. map_of m u =
              (if u \<in> LogLine.url ` set ls
               then Some (map time (filter (\<lambda>l. LogLine.url l = u) ls)) else None))"
  unfolding m_def
proof (induction ls rule: rev_induct)
  case Nil
  then show ?case by simp
next
  case (snoc l ls)
  then show ?case
    by (auto simp: append_time_distinct append_time_lengths map_of_append_time filter_url_absent)
qed

lemma parse_lines_f64_length:
  "parse_lines_f64 url_var lines = Inr items \<Longrightarrow> length items = length lines"
  by (induction lines arbitrary: url_var items) (auto split: sum.splits prod.splits)

lemma count_url_f64_Inr:
  assumes "count_url_f64 log_lines thr = Inr (m, t)"
  obtains items where "parse_log_f64 log_lines = Inr items"
    and "m = requests_by_url (count_lines_f64 items)"
    and "t = total_requests_time (count_lines_f64 items)"
  using assms
  by (auto simp: count_url_f64_def Let_def split: sum.splits if_splits)

lemma sample_count_f64:
  "count_url_f64 sample_log default_error_threshold
     = Inr ([(''/a'', [to_double 0.39, Num 1.5]), (''/b'', [to_double 0.11]), (''/c'', [Num 2])],
            Num 4)"
  by (simp add: count_url_f64_def parse_log_f64_eq [OF sample_parse] count_lines_f64_def
      count_init_f64_def default_error_threshold_def f64_eval)

text \<open>
  Claim C8, as amended. When \<open>count_url\<close> returns the map \<open>m\<close> and the total \<open>t\<close>, the
  two counters of its loop add up to the number of lines of the log, the counter of
  parsed lines is the number of lines yielded as parsed, the keys of \<open>m\<close> are distinct,
  the lengths of the lists of \<open>m\<close> add up to the counter of parsed lines, the list of
  each URL holds the durations of the lines of that URL in the order of the lines, and
  \<open>t\<close> is the float sum of the durations of the parsed lines, added one by one in the
  order of the lines.
\<close>

theorem count_url_f64_invariants:
  assumes "count_url_f64 log_lines error_threshold = Inr (m, t)"
  shows "\<exists>items. parse_log_f64 log_lines = Inr items
           \<and> parsed_lines (count_lines_f64 items) + invalid_lines (count_lines_f64 items)
               = length log_lines
           \<and> parsed_lines (count_lines_f64 items) = length (parsed_items items)
           \<and> distinct (map fst m)
           \<and> (\<Sum>e\<leftarrow>m. length (snd e)) = parsed_lines (count_lines_f64 items)
           \<and> (\<forall>u. map_of m u =
                  (if u \<in> LogLine.url ` set (parsed_items items)
                   then Some (map time (filter (\<lambda>l. LogLine.url l = u) (parsed_items items)))
                   else None))
           \<and> t = sum_f64 (map time (parsed_items items))"
proof -
  from assms obtain items where p: "parse_log_f64 log_lines = Inr items"
    and m: "m = requests_by_url (count_lines_f64 items)"
    and t: "t = total_requests_time (count_lines_f64 items)"
    by (rule count_url_f64_Inr)
  from p have len: "length items = length log_lines"
    by (simp add: parse_log_f64_def parse_lines_f64_length)
  have f: "requests_by_url (count_lines_f64 items)
             = foldl (\<lambda>m l. append_time (LogLine.url l) (time l) m) [] (parsed_items items)"
    and s: "total_requests_time (count_lines_f64 items) = sum_f64 (map time (parsed_items items))"
    and c: "parsed_lines (count_lines_f64 items) = length (parsed_items items)"
    and a: "parsed_lines (count_lines_f64 items) + invalid_lines (count_lines_f64 items)
              = length items"
    using foldl_count_step_f64 [of count_init_f64 items]
    by (simp_all add: count_lines_f64_def count_init_f64_def sum_f64_def)
  from grouped_by_url [of "parsed_items items"] f m
  have g: "distinct (map fst m)" "(\<Sum>e\<leftarrow>m. length (snd e)) = length (parsed_items items)"
    "\<forall>u. map_of m u =
        (if u \<in> LogLine.url ` set (parsed_items items)
         then Some (map time (filter (\<lambda>l. LogLine.url l = u) (parsed_items items)))
         else None)"
    by simp_all
  from p len s c a g t show ?thesis
    by (intro exI [of _ items]) simp
qed

theorem count_url_f64_invariants_witness:
  "count_url_f64 sample_log default_error_threshold
     = Inr ([(''/a'', [to_double 0.39, Num 1.5]), (''/b'', [to_double 0.11]), (''/c'', [Num 2])],
            Num 4)
   \<and> (\<exists>items. parse_log_f64 sample_log = Inr items
         \<and> parsed_lines (count_lines_f64 items) + invalid_lines (count_lines_f64 items) = 5
         \<and> parsed_lines (count_lines_f64 items) = 4
         \<and> Num 4 = sum_f64 (map time (parsed_items items)))"
proof -
  from count_url_f64_invariants [OF sample_count_f64] obtain items where
    "parse_log_f64 sample_log = Inr items"
    "parsed_lines (count_lines_f64 items) + invalid_lines (count_lines_f64 items)
       = length sample_log"
    "(\<Sum>e\<leftarrow>[(''/a'', [to_double 0.39, Num 1.5]), (''/b'', [to_double 0.11]), (''/c'', [Num 2])].
        length (snd e)) = parsed_lines (count_lines_f64 items)"
    "Num 4 = sum_f64 (map time (parsed_items items))"
    by blast
  then show ?thesis
    using sample_count_f64 by (intro conjI exI [of _ items]) (simp_all add: sample_log_def)
qed

section \<open>The statistics on floats\<close>

lemmas stats_f64_eval = count_url_stats_f64_def url_stat_f64_def sum_f64_def median_f64_def
  sorted_last_f64_def sorted_reverse_f64_def less_eq_double_def Let_def

lemma round_half_even_ge_floor: "\<lfloor>y\<rfloor> \<le> round_half_even y"
  by (simp add: round_half_even_def Let_def)

lemma ilog2_pow2_le:
  assumes "1 \<le> x"
  shows "0 \<le> ilog2 x" and "2 ^ nat (ilog2 x) \<le> x"
proof -
  from assms have pos: "0 < \<lfloor>x\<rfloor>" by simp
  then have b: "1 \<le> bitlen \<lfloor>x\<rfloor>"
    by (simp add: bitlen_alt_def)
  with assms show "0 \<le> ilog2 x"
    by (simp add: ilog2_def)
  from bitlen_bounds [OF pos] have "2 ^ nat (bitlen \<lfloor>x\<rfloor> - 1) \<le> \<lfloor>x\<rfloor>"
    by simp
  then have "(2::real) ^ nat (bitlen \<lfloor>x\<rfloor> - 1) \<le> of_int \<lfloor>x\<rfloor>"
    by (metis of_int_le_iff of_int_numeral of_int_power)
  also have "\<dots> \<le> x" by simp
  finally show "2 ^ nat (ilog2 x) \<le> x"
    using assms by (simp add: ilog2_def)
qed

lemma pow2_pos: "0 < pow2 e"
  by (simp add: pow2_def)

lemma pow2_le:
  assumes "1 \<le> x" and "e \<le> ilog2 x"
  shows "pow2 e \<le> x"
proof (cases "0 \<le> e")
  case True
  with assms(2) have "nat e \<le> nat (ilog2 x)" by simp
  then have "(2::real) ^ nat e \<le> 2 ^ nat (ilog2 x)"
    by (simp add: power_increasing)
  also have "\<dots> \<le> x" using assms(1) by (rule ilog2_pow2_le)
  finally show ?thesis using True by (simp add: pow2_def)
next
  case False
  have "(1::real) \<le> 2 ^ nat (- e)" by simp
  then have "1 / (2::real) ^ nat (- e) \<le> 1" by simp
  also note assms(1)
  finally show ?thesis using False by (simp add: pow2_def)
qed

lemma of_int_pow2_le: "(n::int) \<le> 2 ^ k \<Longrightarrow> real_of_int n \<le> 2 ^ k"
proof -
  assume "n \<le> 2 ^ k"
  then have "real_of_int n \<le> real_of_int (2 ^ k)" by (simp only: of_int_le_iff)
  then show ?thesis by simp
qed

lemma pow2_le_of_int: "2 ^ k \<le> (n::int) \<Longrightarrow> 2 ^ k \<le> real_of_int n"
proof -
  assume "2 ^ k \<le> n"
  then have "real_of_int (2 ^ k) \<le> real_of_int n" by (simp only: of_int_le_iff)
  then show ?thesis by simp
qed

lemma ilog2_upper_ge1:
  fixes a :: real
  assumes "1 \<le> a"
  shows "a < 2 ^ nat (bitlen \<lfloor>a\<rfloor>)"
proof -
  from assms have pos: "0 < \<lfloor>a\<rfloor>" by simp
  from bitlen_bounds [OF pos] have "\<lfloor>a\<rfloor> + 1 \<le> 2 ^ nat (bitlen \<lfloor>a\<rfloor>)" by simp
  then have "real_of_int (\<lfloor>a\<rfloor> + 1) \<le> 2 ^ nat (bitlen \<lfloor>a\<rfloor>)"
    by (rule of_int_pow2_le)
  moreover have "a < real_of_int (\<lfloor>a\<rfloor> + 1)" by simp
  ultimately show ?thesis by (rule less_le_trans [rotated])
qed

lemma recip_bounds:
  fixes a :: real
  assumes "0 < a" and "a < 1"
  defines "k \<equiv> bitlen (\<lceil>1 / a\<rceil> - 1)"
  shows "1 \<le> k" and "1 / 2 ^ nat k \<le> a" and "a < 1 / 2 ^ nat (k - 1)"
proof -
  define c where "c = \<lceil>1 / a\<rceil>"
  from assms(1,2) have y: "1 < 1 / a" by simp
  have cy: "1 / a \<le> real_of_int c" unfolding c_def by (rule le_of_int_ceiling)
  have yc: "real_of_int c - 1 < 1 / a" unfolding c_def
    using ceiling_correct [of "1 / a"] by simp
  from y cy have "1 < real_of_int c" by (rule less_le_trans)
  then have pos: "0 < c - 1" by simp
  then show k1: "1 \<le> k"
    by (simp add: k_def c_def bitlen_alt_def)
  from bitlen_bounds [OF pos] have lo: "2 ^ nat (k - 1) \<le> c - 1" and hi: "c \<le> 2 ^ nat k"
    by (simp_all add: k_def c_def)
  from hi have "real_of_int c \<le> 2 ^ nat k" by (rule of_int_pow2_le)
  with cy have "1 / a \<le> 2 ^ nat k" by (rule order_trans)
  with assms(1) have "1 \<le> 2 ^ nat k * a"
    by (simp add: pos_divide_le_eq)
  then show "1 / 2 ^ nat k \<le> a"
    by (simp add: pos_divide_le_eq mult.commute)
  from lo have "2 ^ nat (k - 1) \<le> real_of_int (c - 1)" by (rule pow2_le_of_int)
  with yc have "2 ^ nat (k - 1) < 1 / a" by simp
  with assms(1) have "2 ^ nat (k - 1) * a < 1"
    by (simp add: pos_less_divide_eq)
  then show "a < 1 / 2 ^ nat (k - 1)"
    by (simp add: pos_less_divide_eq mult.commute)
qed

lemma ilog2_bounds:
  assumes "0 < a"
  shows "pow2 (ilog2 a) \<le> a \<and> a < pow2 (ilog2 a + 1)"
proof (cases "1 \<le> a")
  case True
  from True have "0 < \<lfloor>a\<rfloor>" by simp
  then have "1 \<le> bitlen \<lfloor>a\<rfloor>" by (simp add: bitlen_alt_def)
  with True ilog2_pow2_le [OF True] ilog2_upper_ge1 [OF True] show ?thesis
    by (simp add: ilog2_def pow2_def)
next
  case False
  then have lt: "a < 1" by simp
  define k where "k = bitlen (\<lceil>1 / a\<rceil> - 1)"
  from recip_bounds [OF assms lt] have k1: "1 \<le> k" and lo: "1 / 2 ^ nat k \<le> a"
    and hi: "a < 1 / 2 ^ nat (k - 1)"
    by (simp_all add: k_def)
  have il: "ilog2 a = - k" using False by (simp add: ilog2_def k_def)
  from k1 lo have a: "pow2 (- k) \<le> a" by (simp add: pow2_def)
  have b: "a < pow2 (- k + 1)"
  proof (cases "k = 1")
    case True
    with hi show ?thesis by (simp add: pow2_def)
  next
    case False
    with k1 have "\<not> 0 \<le> - k + 1" and "nat (- (- k + 1)) = nat (k - 1)" by simp_all
    with hi show ?thesis by (simp add: pow2_def)
  qed
  from a b il show ?thesis by simp
qed

lemma round_half_even_near: "\<bar>of_int (round_half_even y) - y\<bar> \<le> 1 / 2"
proof -
  have "of_int \<lfloor>y\<rfloor> \<le> y" and "y < of_int \<lfloor>y\<rfloor> + 1"
    by linarith+
  then show ?thesis
    by (simp add: round_half_even_def Let_def)
qed

text \<open>
  \<open>ilog2\<close> is the binary exponent, and \<open>round_at\<close> moves a number by at most half a
  step to a multiple of the step: \<open>to_double\<close> rounds to a nearest double.
\<close>

lemma round_at_near: "\<bar>round_at e a - a\<bar> \<le> pow2 e / 2"
proof -
  have p: "0 < pow2 e" by (rule pow2_pos)
  have "round_at e a - a = (of_int (round_half_even (a / pow2 e)) - a / pow2 e) * pow2 e"
    using p by (simp add: round_at_def field_simps)
  then have "\<bar>round_at e a - a\<bar> = \<bar>of_int (round_half_even (a / pow2 e)) - a / pow2 e\<bar> * pow2 e"
    using p by (simp add: abs_mult)
  also have "\<dots> \<le> 1 / 2 * pow2 e"
    using p round_half_even_near [of "a / pow2 e"] by (intro mult_right_mono) simp_all
  finally show ?thesis by simp
qed

lemma to_double_nonzero:
  assumes "1 \<le> x"
  shows "to_double x \<noteq> Num 0"
proof -
  define e where "e = max (ilog2 x - 52) (- 1074)"
  from assms have "0 \<le> ilog2 x" by (rule ilog2_pow2_le)
  then have "e \<le> ilog2 x" by (simp add: e_def)
  with assms have "pow2 e \<le> x" by (rule pow2_le)
  then have "1 \<le> x / pow2 e"
    using pow2_pos [of e] by (simp add: le_divide_eq)
  then have "1 \<le> \<lfloor>x / pow2 e\<rfloor>" by simp
  with round_half_even_ge_floor [of "x / pow2 e"] have "1 \<le> round_half_even (x / pow2 e)"
    by linarith
  then have "0 < round_at e x"
    using pow2_pos [of e] by (simp add: round_at_def)
  moreover from assms have "to_double x = pack_f64 False (round_at e x)"
    by (simp add: to_double_def e_def)
  ultimately show ?thesis
    by (simp add: pack_f64_def)
qed

lemma div_f64_ok: "y \<noteq> Num 0 \<Longrightarrow> \<exists>q. div_f64 x y = Inr q"
  by (cases y; cases x) simp_all

lemma sort_empty: "sort ts = [] \<Longrightarrow> ts = []"
  by (metis length_0_conv length_sort)

lemma sorted_le_last:
  fixes xs :: "'a::linorder list"
  assumes "sorted xs" and "y \<in> set xs"
  shows "y \<le> last xs"
proof -
  from assms(2) obtain i where i: "i < length xs" and y: "xs ! i = y"
    by (auto simp: in_set_conv_nth)
  then have ne: "xs \<noteq> []" by auto
  from i have "i \<le> length xs - 1" and "length xs - 1 < length xs"
    by simp_all
  with assms(1) have "xs ! i \<le> xs ! (length xs - 1)"
    by (rule sorted_nth_mono)
  with y ne show ?thesis
    by (simp add: last_conv_nth)
qed

lemma last_sort_Max:
  fixes ts :: "'a::linorder list"
  assumes "ts \<noteq> []"
  shows "sort ts \<noteq> []" and "last (sort ts) = Max (set ts)"
proof -
  from assms show ne: "sort ts \<noteq> []"
    using sort_empty by blast
  then have "last (sort ts) \<in> set ts"
    using last_in_set [of "sort ts"] by simp
  moreover have "\<forall>y\<in>set ts. y \<le> last (sort ts)"
    using sorted_le_last [of "sort ts"] by simp
  ultimately show "last (sort ts) = Max (set ts)"
    by (intro Max_eqI [symmetric]) simp_all
qed

lemma sorted_last_f64_Max: "ts \<noteq> [] \<Longrightarrow> sorted_last_f64 ts = Inr (Max (set ts))"
  by (simp add: sorted_last_f64_def last_sort_Max)

lemma median_f64_ok:
  assumes "ts \<noteq> []"
  shows "\<exists>med. median_f64 ts = Inr med"
proof -
  from assms have ne: "length (sort ts) \<noteq> 0"
    using sort_empty by fastforce
  have "\<exists>q. div_f64 x (Num 2) = Inr q" for x
    by (rule div_f64_ok) simp
  with ne show ?thesis
    unfolding median_f64_def Let_def by (simp only: if_False split: if_split) blast
qed

lemma url_stat_f64_ok:
  assumes "snd e \<noteq> []" and "total_time \<noteq> Num 0"
  shows "\<exists>p a med.
           div_f64 (mul_f64 (Num 100) (round_f64 (sum_f64 (snd e)) 5)) total_time = Inr p
           \<and> div_f64 (round_f64 (sum_f64 (snd e)) 5) (to_double (real (length (snd e)))) = Inr a
           \<and> median_f64 (snd e) = Inr med
           \<and> url_stat_f64 n total_time e
               = Inr \<lparr>url = fst e, count = length (snd e),
                      count_perc = round_f64 (to_double (real (100 * length (snd e)) / real n)) 5,
                      time_sum = round_f64 (sum_f64 (snd e)) 5,
                      time_perc = round_f64 p 5,
                      time_avg = round_f64 a 5,
                      time_max = Max (set (snd e)),
                      time_med = round_f64 med 5\<rparr>"
proof -
  from assms(2) obtain p where
    p: "div_f64 (mul_f64 (Num 100) (round_f64 (sum_f64 (snd e)) 5)) total_time = Inr p"
    using div_f64_ok by blast
  from assms(1) have "1 \<le> real (length (snd e))"
    by (cases "snd e") simp_all
  then have "to_double (real (length (snd e))) \<noteq> Num 0"
    by (rule to_double_nonzero)
  then obtain a where
    a: "div_f64 (round_f64 (sum_f64 (snd e)) 5) (to_double (real (length (snd e)))) = Inr a"
    using div_f64_ok by blast
  from assms(1) obtain med where med: "median_f64 (snd e) = Inr med"
    using median_f64_ok by blast
  from p a med sorted_last_f64_Max [OF assms(1)] show ?thesis
    by (simp add: url_stat_f64_def Let_def)
qed

lemma stats_loop_f64_ok:
  assumes "\<forall>e\<in>set m. snd e \<noteq> []" and "total_time \<noteq> Num 0"
  shows "\<exists>ss. stats_loop_f64 n total_time m = Inr ss
           \<and> list_all2 (\<lambda>e s. url_stat_f64 n total_time e = Inr s) m ss"
  using assms(1)
proof (induction m)
  case Nil
  then show ?case by simp
next
  case (Cons e m)
  from Cons.prems assms(2) obtain s where s: "url_stat_f64 n total_time e = Inr s"
    using url_stat_f64_ok [of e total_time n] by auto
  from Cons obtain ss where "stats_loop_f64 n total_time m = Inr ss"
    and "list_all2 (\<lambda>e s. url_stat_f64 n total_time e = Inr s) m ss"
    by auto
  with s show ?case by simp
qed

lemma url_stat_f64_url: "url_stat_f64 n total_time e = Inr s \<Longrightarrow> url s = fst e"
  by (auto simp: url_stat_f64_def Let_def split: sum.splits)

lemma list_all2_urls_f64:
  "list_all2 (\<lambda>e s. url_stat_f64 n total_time e = Inr s) m ss \<Longrightarrow> map url ss = map fst m"
  by (induction m ss rule: list_all2_induct) (simp_all add: url_stat_f64_url)

lemma list_all2_source_f64:
  "list_all2 (\<lambda>e s. url_stat_f64 n total_time e = Inr s) m ss \<Longrightarrow> s \<in> set ss
     \<Longrightarrow> \<exists>e\<in>set m. url_stat_f64 n total_time e = Inr s"
  by (induction m ss rule: list_all2_induct) auto

lemma sorted_reverse_f64_length: "length (sorted_reverse_f64 xs) = length xs"
  by (simp add: sorted_reverse_f64_def)

lemma sorted_reverse_f64_set: "set (sorted_reverse_f64 xs) = set xs"
  by (simp add: sorted_reverse_f64_def)

lemma sorted_reverse_f64_urls_distinct:
  "distinct (map url (sorted_reverse_f64 ss)) = distinct (map url ss)"
  by (simp add: distinct_map sorted_reverse_f64_def)

lemma eight_times_stats:
  "count_url_stats_f64 eight_times (to_double 0.005)
     = Inr [\<lparr>url = ''/a'', count = 8, count_perc = Num 800, time_sum = to_double 0.005,
              time_perc = Num 100, time_avg = to_double 0.00063, time_max = to_double 0.005,
              time_med = Num 0\<rparr>]"
  by (simp add: eight_times_def stats_f64_eval f64_eval)

text \<open>
  Claim C3, as amended, in the arithmetic of floats: for a map with distinct keys
  whose lists are not empty and hold no \<open>NaN\<close>, and a total that is not zero,
  \<open>count_url_stats\<close> returns one record for each key, with \<open>count\<close> the number of
  durations of the key, \<open>count_perc\<close> the float \<open>100 * count / (number of keys)\<close> rounded
  to five digits, \<open>time_sum\<close> the float sum of the durations rounded to five digits,
  \<open>time_avg\<close> the float quotient of the rounded sum by the count, rounded to five
  digits, \<open>time_max\<close> the greatest duration and \<open>time_med\<close> the median rounded to five
  digits. For the durations 1, 2, 3, 4 the sum is 10, the average 2.5, the maximum 4
  and the median 2.5.
\<close>

theorem count_url_stats_f64_fields:
  assumes "distinct (map fst requests)"
    and "\<forall>e\<in>set requests. snd e \<noteq> [] \<and> NaN \<notin> set (snd e)"
    and "total_time \<noteq> Num 0"
  shows "(\<exists>out. count_url_stats_f64 requests total_time = Inr out
           \<and> length out = length requests
           \<and> distinct (map url out)
           \<and> url ` set out = fst ` set requests
           \<and> (\<forall>s\<in>set out. \<exists>ts a med. (url s, ts) \<in> set requests
                 \<and> count s = length ts
                 \<and> count_perc s
                     = round_f64 (to_double (real (100 * count s) / real (length requests))) 5
                 \<and> time_sum s = round_f64 (sum_f64 ts) 5
                 \<and> div_f64 (time_sum s) (to_double (real (count s))) = Inr a
                 \<and> time_avg s = round_f64 a 5
                 \<and> time_max s = Max (set ts)
                 \<and> median_f64 ts = Inr med
                 \<and> time_med s = round_f64 med 5))
       \<and> count_url_stats_f64 [(''/u'', [Num 1, Num 2, Num 3, Num 4])] (Num 10)
           = Inr [\<lparr>url = ''/u'', count = 4, count_perc = Num 400, time_sum = Num 10,
                    time_perc = Num 100, time_avg = Num 2.5, time_max = Num 4,
                    time_med = Num 2.5\<rparr>]"
proof
  from assms(2) have ne: "\<forall>e\<in>set requests. snd e \<noteq> []"
    by blast
  with assms(3) obtain ss where
    loop: "stats_loop_f64 (length requests) total_time requests = Inr ss"
    and all2: "list_all2 (\<lambda>e s. url_stat_f64 (length requests) total_time e = Inr s) requests ss"
    using stats_loop_f64_ok by blast
  let ?out = "sorted_reverse_f64 ss"
  have res: "count_url_stats_f64 requests total_time = Inr ?out"
    by (simp add: count_url_stats_f64_def loop)
  have urls: "map url ss = map fst requests"
    using all2 by (rule list_all2_urls_f64)
  have len: "length ?out = length requests"
    using all2 by (simp add: sorted_reverse_f64_length list_all2_lengthD)
  have dist: "distinct (map url ?out)"
    using assms(1) by (simp add: sorted_reverse_f64_urls_distinct urls)
  have img: "url ` set ?out = fst ` set requests"
  proof -
    have "url ` set ss = set (map url ss)" by simp
    also have "\<dots> = fst ` set requests" by (simp add: urls)
    finally show ?thesis by (simp add: sorted_reverse_f64_set)
  qed
  have fields: "\<exists>ts a med. (url s, ts) \<in> set requests
                 \<and> count s = length ts
                 \<and> count_perc s
                     = round_f64 (to_double (real (100 * count s) / real (length requests))) 5
                 \<and> time_sum s = round_f64 (sum_f64 ts) 5
                 \<and> div_f64 (time_sum s) (to_double (real (count s))) = Inr a
                 \<and> time_avg s = round_f64 a 5
                 \<and> time_max s = Max (set ts)
                 \<and> median_f64 ts = Inr med
                 \<and> time_med s = round_f64 med 5" if "s \<in> set ?out" for s
  proof -
    from that have "s \<in> set ss" by (simp add: sorted_reverse_f64_set)
    with all2 obtain e where e: "e \<in> set requests"
      and s: "url_stat_f64 (length requests) total_time e = Inr s"
      using list_all2_source_f64 by blast
    from e ne have "snd e \<noteq> []" by blast
    from url_stat_f64_ok [OF this assms(3), of "length requests"] s
    obtain p a med where
      a: "div_f64 (round_f64 (sum_f64 (snd e)) 5) (to_double (real (length (snd e)))) = Inr a"
      and med: "median_f64 (snd e) = Inr med"
      and rec: "s = \<lparr>url = fst e, count = length (snd e),
                      count_perc
                        = round_f64 (to_double (real (100 * length (snd e)) / real (length requests))) 5,
                      time_sum = round_f64 (sum_f64 (snd e)) 5,
                      time_perc = round_f64 p 5,
                      time_avg = round_f64 a 5,
                      time_max = Max (set (snd e)),
                      time_med = round_f64 med 5\<rparr>"
      by auto
    from e a med rec show ?thesis
      by (intro exI [of _ "snd e"] exI [of _ a] exI [of _ med]) simp
  qed
  from res len dist img fields
  show "\<exists>out. count_url_stats_f64 requests total_time = Inr out
           \<and> length out = length requests
           \<and> distinct (map url out)
           \<and> url ` set out = fst ` set requests
           \<and> (\<forall>s\<in>set out. \<exists>ts a med. (url s, ts) \<in> set requests
                 \<and> count s = length ts
                 \<and> count_perc s
                     = round_f64 (to_double (real (100 * count s) / real (length requests))) 5
                 \<and> time_sum s = round_f64 (sum_f64 ts) 5
                 \<and> div_f64 (time_sum s) (to_double (real (count s))) = Inr a
                 \<and> time_avg s = round_f64 a 5
                 \<and> time_max s = Max (set ts)
                 \<and> median_f64 ts = Inr med
                 \<and> time_med s = round_f64 med 5)"
    by blast
next
  show "count_url_stats_f64 [(''/u'', [Num 1, Num 2, Num 3, Num 4])] (Num 10)
           = Inr [\<lparr>url = ''/u'', count = 4, count_perc = Num 400, time_sum = Num 10,
                    time_perc = Num 100, time_avg = Num 2.5, time_max = Num 4,
                    time_med = Num 2.5\<rparr>]"
    by (simp add: stats_f64_eval f64_eval)
qed

text \<open>
  An instance: one URL with the durations 0.005 and seven times 0. The float
  \<open>0.005 / 8\<close> lies above 0.000625, and \<open>time_avg\<close> is 0.00063.
\<close>

theorem count_url_stats_f64_fields_witness:
  "distinct (map fst eight_times) \<and> to_double 0.005 \<noteq> Num 0
   \<and> (\<exists>out. count_url_stats_f64 eight_times (to_double 0.005) = Inr out \<and> length out = 1
          \<and> map time_avg out = [to_double 0.00063])"
proof -
  have d: "distinct (map fst eight_times)"
    by (simp add: eight_times_def)
  have n: "\<forall>e\<in>set eight_times. snd e \<noteq> [] \<and> NaN \<notin> set (snd e)"
    by (simp add: eight_times_def f64_eval)
  have z: "to_double 0.005 \<noteq> Num 0"
    by (simp add: f64_eval)
  from count_url_stats_f64_fields [OF d n z, THEN conjunct1] obtain out where
    o: "count_url_stats_f64 eight_times (to_double 0.005) = Inr out"
    and l: "length out = length eight_times"
    by blast
  from o eight_times_stats have "map time_avg out = [to_double 0.00063]"
    by simp
  with d z o l show ?thesis
    by (simp add: eight_times_def)
qed

text \<open>
  Claim C3 as it is written gives \<open>count_perc\<close> as \<open>100 * count / (number of keys)\<close>
  with no rounding. With three keys of one duration each the code gives 33.33333,
  which is not the float \<open>100 / 3\<close>.
\<close>

theorem count_perc_rounded_counterexample:
  "count_url_stats_f64 three_urls_f64 (Num 3)
     = Inr [\<lparr>url = ''/a'', count = 1, count_perc = to_double 33.33333, time_sum = Num 1,
              time_perc = to_double 33.33333, time_avg = Num 1, time_max = Num 1,
              time_med = Num 1\<rparr>,
            \<lparr>url = ''/b'', count = 1, count_perc = to_double 33.33333, time_sum = Num 1,
              time_perc = to_double 33.33333, time_avg = Num 1, time_max = Num 1,
              time_med = Num 1\<rparr>,
            \<lparr>url = ''/c'', count = 1, count_perc = to_double 33.33333, time_sum = Num 1,
              time_perc = to_double 33.33333, time_avg = Num 1, time_max = Num 1,
              time_med = Num 1\<rparr>]
   \<and> to_double 33.33333 \<noteq> to_double (real (100 * Suc 0) / real (length three_urls_f64))"
proof
  show "count_url_stats_f64 three_urls_f64 (Num 3)
     = Inr [\<lparr>url = ''/a'', count = 1, count_perc = to_double 33.33333, time_sum = Num 1,
              time_perc = to_double 33.33333, time_avg = Num 1, time_max = Num 1,
              time_med = Num 1\<rparr>,
            \<lparr>url = ''/b'', count = 1, count_perc = to_double 33.33333, time_sum = Num 1,
              time_perc = to_double 33.33333, time_avg = Num 1, time_max = Num 1,
              time_med = Num 1\<rparr>,
            \<lparr>url = ''/c'', count = 1, count_perc = to_double 33.33333, time_sum = Num 1,
              time_perc = to_double 33.33333, time_avg = Num 1, time_max = Num 1,
              time_med = Num 1\<rparr>]"
    by (simp add: three_urls_f64_def stats_f64_eval f64_eval)
next
  show "to_double 33.33333 \<noteq> to_double (real (100 * Suc 0) / real (length three_urls_f64))"
    by (simp add: three_urls_f64_def f64_eval)
qed

section \<open>The report writer\<close>

text \<open>
  Claim C10 (the report is written to a temporary place and renamed to its path, so
  that it is never seen partly written) fails on the code. No statement renames: line
  199 opens the report itself for writing, which leaves it empty, and line 200 copies
  into it. After the fourth statement the report is the empty file, whatever the text
  to write.
\<close>

theorem write_report_truncates_destination:
  "3 < length (write_report tmp_name flushed rendered_template report_path fs)
   \<and> (write_report tmp_name flushed rendered_template report_path fs ! 3) report_path = Some []"
  by (simp add: write_report_def Let_def)

end
